theory Spec2Isabelle
  imports Complex_Main
begin

section \<open>RouteStorm: weather-adjusted single-vehicle route planning\<close>

text \<open>
  A shallow embedding of \<^verbatim>\<open>RouteStorm.py\<close>. Python floats are modelled by the real
  numbers in the geometric and matrix stages (the library functions \<^verbatim>\<open>sin\<close>,
  \<^verbatim>\<open>cos\<close>, \<^verbatim>\<open>asin\<close>, \<^verbatim>\<open>sqrt\<close> have no bit-level specification), so not-a-number
  and infinities do not occur there. The additions and comparisons of the weather rule are
  modelled with exact binary64 rounding. Every Python exception is a value of the type
  \<open>error\<close>, and a function that can raise returns \<open>error + 'a\<close>. The network, the date
  parser and the routing library are parameters of the functions that call them.
\<close>

subsection \<open>Exceptions and list access\<close>

datatype error =
    ValueError
  | ZeroDivisionError
  | IndexError
  | TypeError
  | RequestException
  | HTTPError
  | JSONDecodeError
  | RuntimeError

type_synonym matrix = "real list list"

text \<open>\<^verbatim>\<open>xs[i]\<close> for a non-negative index: IndexError beyond the end.\<close>

definition py_get :: "'a list \<Rightarrow> nat \<Rightarrow> error + 'a" where
  "py_get xs i = (if i < length xs then Inr (xs ! i) else Inl IndexError)"





subsection \<open>Stops\<close>

record stop =
  name :: string
  lat :: real
  lon :: real
  "when" :: "string option"



subsection \<open>Great-circle distance\<close>



subsection \<open>The nested fill loop of both matrix builders\<close>

text \<open>
  \<^verbatim>\<open>build_base_time_matrix\<close> and \<^verbatim>\<open>apply_weather_to_matrix\<close> run the same loops:
  \<^verbatim>\<open>for i in range(n): for j in range(n): if i == j: continue; m[i][j] = cell\<close>.
  The loops are recursion over the index lists, the matrix is passed along and updated
  in place, and an exception raised while a cell is computed ends the run.
\<close>

fun fill_row :: "(nat \<Rightarrow> nat \<Rightarrow> error + real) \<Rightarrow> nat \<Rightarrow> nat list \<Rightarrow> matrix \<Rightarrow> error + matrix" where
  "fill_row cell i [] m = Inr m"
| "fill_row cell i (j # js) m =
     (if i = j then fill_row cell i js m
      else case cell i j of
             Inl e \<Rightarrow> Inl e
           | Inr v \<Rightarrow> fill_row cell i js (m[i := (m ! i)[j := v]]))"

fun fill_rows :: "(nat \<Rightarrow> nat \<Rightarrow> error + real) \<Rightarrow> nat \<Rightarrow> nat list \<Rightarrow> matrix \<Rightarrow> error + matrix" where
  "fill_rows cell n [] m = Inr m"
| "fill_rows cell n (i # is) m =
     (case fill_row cell i [0..<n] m of
        Inl e \<Rightarrow> Inl e
      | Inr m' \<Rightarrow> fill_rows cell n is m')"

text \<open>\<^verbatim>\<open>[[0.0]*n for _ in range(n)]\<close>\<close>

definition zeros :: "nat \<Rightarrow> matrix" where
  "zeros n = replicate n (replicate n 0)"

subsection \<open>Base travel-time matrix\<close>



subsection \<open>Weather-adjusted matrix\<close>

definition adjust_cell :: "matrix \<Rightarrow> real list \<Rightarrow> nat \<Rightarrow> nat \<Rightarrow> error + real" where
  "adjust_cell base_matrix node_factors i j =
     (case py_get base_matrix i of
        Inl e \<Rightarrow> Inl e
      | Inr row \<Rightarrow> (case py_get row j of
          Inl e \<Rightarrow> Inl e
        | Inr b \<Rightarrow> (case py_get node_factors i of
            Inl e \<Rightarrow> Inl e
          | Inr fi \<Rightarrow> (case py_get node_factors j of
              Inl e \<Rightarrow> Inl e
            | Inr fj \<Rightarrow> Inr (b * max fi fj)))))"

definition apply_weather_to_matrix :: "matrix \<Rightarrow> real list \<Rightarrow> error + matrix" where
  "apply_weather_to_matrix base_matrix node_factors =
     (let n = length base_matrix
      in fill_rows (adjust_cell base_matrix node_factors) n [0..<n] (zeros n))"

text \<open>The invariants of a time matrix in the data model.\<close>

definition square :: "matrix \<Rightarrow> bool" where
  "square m = (\<forall>r \<in> set m. length r = length m)"

definition zero_diagonal :: "matrix \<Rightarrow> bool" where
  "zero_diagonal m = (\<forall>i < length m. m ! i ! i = 0)"

definition non_negative :: "matrix \<Rightarrow> bool" where
  "non_negative m = (\<forall>r \<in> set m. \<forall>x \<in> set r. 0 \<le> x)"

subsection \<open>Double-precision sums of the weather rule\<close>

text \<open>
  The weather rule adds decimal literals such as \<^verbatim>\<open>0.10\<close> to a float and compares floats
  with such literals. Addition and comparison of binary64 numbers are fixed by IEEE 754
  (round to nearest, ties to even), and the rounded sum differs from the sum of the decimals:
  \<^verbatim>\<open>1.0 + 0.1 + 0.1\<close> is \<^verbatim>\<open>1.2000000000000002\<close>. The rule is therefore modelled with the
  exact rounding function on the reals. Overflow does not occur in it.
\<close>

text \<open>The number of binary digits of a natural number.\<close>

function blen :: "nat \<Rightarrow> nat" where
  "blen n = (if n = 0 then 0 else Suc (blen (n div 2)))"
  by pat_completeness auto
termination by (relation "measure id") auto

definition two_pow :: "int \<Rightarrow> real" where
  "two_pow e = (if 0 \<le> e then 2 ^ nat e else 1 / 2 ^ nat (- e))"

text \<open>The binary exponent of a positive real: \<open>2 ^ ilog2 a \<le> a < 2 ^ (ilog2 a + 1)\<close>.\<close>

definition ilog2 :: "real \<Rightarrow> int" where
  "ilog2 a = (if 1 \<le> a then int (blen (nat \<lfloor>a\<rfloor>)) - 1
              else - int (blen (nat \<lceil>1 / a\<rceil> - 1)))"

text \<open>Round to the nearest integer, ties to even; also Python's \<^verbatim>\<open>round\<close> of a float.\<close>

definition rne :: "real \<Rightarrow> int" where
  "rne x = (let f = \<lfloor>x\<rfloor>; d = x - of_int f in
     if d < 1/2 then f else if 1/2 < d then f + 1 else if even f then f else f + 1)"

text \<open>The binary64 number nearest to a real: 53 significant bits, subnormals below \<open>2 ^ - 1022\<close>.\<close>

definition binary64_round :: "real \<Rightarrow> real" where
  "binary64_round x = (if x = 0 then 0 else
     let a = \<bar>x\<bar>; e = max (ilog2 a) (- 1022); q = two_pow (e - 52)
     in sgn x * of_int (rne (a / q)) * q)"

text \<open>Float addition, and the float that a decimal literal of the source denotes.\<close>

definition fadd :: "real \<Rightarrow> real \<Rightarrow> real" where
  "fadd x y = binary64_round (x + y)"

definition lit :: "real \<Rightarrow> real" where
  "lit d = binary64_round d"

subsection \<open>The weather rule\<close>

text \<open>
  The six \<^verbatim>\<open>if ...: factor += ...\<close> statements of \<^verbatim>\<open>get_weather_factor\<close>, in their
  order. The literals \<^verbatim>\<open>30\<close> and \<^verbatim>\<open>50\<close> are Python integers.
\<close>

definition weather_rule :: "real \<Rightarrow> real \<Rightarrow> real \<Rightarrow> real \<Rightarrow> real" where
  "weather_rule precip snow wind gust =
     (let factor = 1;
          factor = (if lit 0.5 \<le> precip then fadd factor (lit 0.10) else factor);
          factor = (if lit 5.0 \<le> precip then fadd factor (lit 0.10) else factor);
          factor = (if lit 0.1 \<le> snow then fadd factor (lit 0.20) else factor);
          factor = (if lit 1.0 \<le> snow then fadd factor (lit 0.30) else factor);
          factor = (if 30 \<le> wind then fadd factor (lit 0.05) else factor);
          factor = (if 50 \<le> gust then fadd factor (lit 0.10) else factor)
      in factor)"

text \<open>The same statements with the six comparisons already decided.\<close>

definition rule_of_tests :: "bool \<Rightarrow> bool \<Rightarrow> bool \<Rightarrow> bool \<Rightarrow> bool \<Rightarrow> bool \<Rightarrow> real" where
  "rule_of_tests rain heavy_rain snow heavy_snow windy gusty =
     (let factor = 1;
          factor = (if rain then fadd factor (lit 0.10) else factor);
          factor = (if heavy_rain then fadd factor (lit 0.10) else factor);
          factor = (if snow then fadd factor (lit 0.20) else factor);
          factor = (if heavy_snow then fadd factor (lit 0.30) else factor);
          factor = (if windy then fadd factor (lit 0.05) else factor);
          factor = (if gusty then fadd factor (lit 0.10) else factor)
      in factor)"

definition exact_of_tests :: "bool \<Rightarrow> bool \<Rightarrow> bool \<Rightarrow> bool \<Rightarrow> bool \<Rightarrow> bool \<Rightarrow> real" where
  "exact_of_tests rain heavy_rain snow heavy_snow windy gusty =
     1 + (if rain then 0.10 else 0) + (if heavy_rain then 0.10 else 0)
       + (if snow then 0.20 else 0) + (if heavy_snow then 0.30 else 0)
       + (if windy then 0.05 else 0) + (if gusty then 0.10 else 0)"

text \<open>
  A number that the JSON decoder can hand to the rule: a float (the decoder rounds a
  decimal with a fraction to binary64) or an integer.
\<close>

definition is_binary64 :: "real \<Rightarrow> bool" where
  "is_binary64 x = (binary64_round x = x)"

definition json_number :: "real \<Rightarrow> bool" where
  "json_number x = (is_binary64 x \<or> x \<in> \<int>)"

text \<open>
  The thresholds and penalties as decimal numbers, each with the truth of its test, and
  the penalties whose test holds.
\<close>

definition penalties :: "real \<Rightarrow> real \<Rightarrow> real \<Rightarrow> real \<Rightarrow> (bool \<times> real) list" where
  "penalties precip snow wind gust =
     [(0.5 \<le> precip, 0.10), (5.0 \<le> precip, 0.10),
      (0.1 \<le> snow, 0.20), (1.0 \<le> snow, 0.30),
      (30 \<le> wind, 0.05), (50 \<le> gust, 0.10)]"

definition applicable :: "(bool \<times> real) list \<Rightarrow> real list" where
  "applicable ps = map snd (filter fst ps)"

text \<open>The float \<^verbatim>\<open>1.8500000000000003\<close>, which is \<^verbatim>\<open>1.0 + 0.1 + 0.1 + 0.2 + 0.3 + 0.05 + 0.1\<close>.\<close>

definition max_factor :: real where
  "max_factor = 8331659310635419 / 4503599627370496"

subsection \<open>Weather lookup\<close>

text \<open>
  \<^verbatim>\<open>get_weather_factor\<close> talks to two collaborators, which are parameters of the model:
  \<open>stamp\<close> is \<^verbatim>\<open>dateparser.parse(when_iso).astimezone(timezone.utc)\<close> followed by the two
  \<^verbatim>\<open>strftime\<close> calls (\<open>None\<close> when the text does not parse), and \<open>fetch\<close> is the HTTP request
  for a latitude, a longitude and a date. A reply carries the status code and the body;
  the body of a JSON reply is an object whose \<^verbatim>\<open>hourly\<close> member, when present, is an object
  of optional series. A series entry is \<open>None\<close> for a JSON \<^verbatim>\<open>null\<close>.
\<close>

record hourly =
  time :: "string list option"
  precipitation :: "real option list option"
  snowfall :: "real option list option"
  wind_speed_10m :: "real option list option"
  wind_gusts_10m :: "real option list option"

datatype body = Not_json | Json "hourly option"

datatype reply = No_reply | Reply nat body

text \<open>\<^verbatim>\<open>times.index(x)\<close>: the first position of \<open>x\<close>, \<open>None\<close> for the ValueError.\<close>

fun index_of :: "'a list \<Rightarrow> 'a \<Rightarrow> nat option" where
  "index_of [] x = None"
| "index_of (y # ys) x = (if y = x then Some 0 else map_option Suc (index_of ys x))"

text \<open>\<^verbatim>\<open>(data.get(key) or [0])[idx] or 0\<close>: a missing or empty series is \<^verbatim>\<open>[0]\<close>.\<close>

definition series_at :: "real option list option \<Rightarrow> nat \<Rightarrow> error + real" where
  "series_at series idx =
     (let xs = (case series of None \<Rightarrow> [Some 0] | Some ys \<Rightarrow> if ys = [] then [Some 0] else ys)
      in case py_get xs idx of
           Inl e \<Rightarrow> Inl e
         | Inr v \<Rightarrow> Inr (case v of None \<Rightarrow> 0 | Some x \<Rightarrow> x))"

text \<open>\<^verbatim>\<open>r.json().get("hourly", {})\<close> and \<^verbatim>\<open>data.get("time", [])\<close>.\<close>

definition no_hourly :: hourly where
  "no_hourly = \<lparr>time = None, precipitation = None, snowfall = None,
                 wind_speed_10m = None, wind_gusts_10m = None\<rparr>"

definition times_of :: "hourly option \<Rightarrow> string list" where
  "times_of h = (case time (case h of None \<Rightarrow> no_hourly | Some d \<Rightarrow> d) of
                   None \<Rightarrow> [] | Some ts \<Rightarrow> ts)"

definition factor_at :: "hourly \<Rightarrow> nat \<Rightarrow> error + real" where
  "factor_at data idx =
     (case series_at (precipitation data) idx of
        Inl e \<Rightarrow> Inl e
      | Inr precip \<Rightarrow> (case series_at (snowfall data) idx of
          Inl e \<Rightarrow> Inl e
        | Inr snow \<Rightarrow> (case series_at (wind_speed_10m data) idx of
            Inl e \<Rightarrow> Inl e
          | Inr wind \<Rightarrow> (case series_at (wind_gusts_10m data) idx of
              Inl e \<Rightarrow> Inl e
            | Inr gust \<Rightarrow> Inr (weather_rule precip snow wind gust)))))"

text \<open>
  The parser raises TypeError for \<^verbatim>\<open>None\<close> and a ValueError for text it cannot read,
  \<^verbatim>\<open>requests.get\<close> raises when there is no reply, \<^verbatim>\<open>raise_for_status\<close> raises for a status
  from 400 to 599 and \<^verbatim>\<open>r.json()\<close> raises for a body that is not JSON. Only the ValueError
  of \<^verbatim>\<open>times.index\<close> is caught.
\<close>

definition get_weather_factor ::
  "(string \<Rightarrow> (string \<times> string) option) \<Rightarrow> (real \<Rightarrow> real \<Rightarrow> string \<Rightarrow> reply) \<Rightarrow>
   real \<Rightarrow> real \<Rightarrow> string option \<Rightarrow> error + real" where
  "get_weather_factor stamp fetch la lo when_iso =
     (case when_iso of
        None \<Rightarrow> Inl TypeError
      | Some w \<Rightarrow> (case stamp w of
          None \<Rightarrow> Inl ValueError
        | Some (date_str, hour_str) \<Rightarrow> (case fetch la lo date_str of
            No_reply \<Rightarrow> Inl RequestException
          | Reply status b \<Rightarrow>
              if 400 \<le> status \<and> status < 600 then Inl HTTPError
              else (case b of
                Not_json \<Rightarrow> Inl JSONDecodeError
              | Json h \<Rightarrow>
                  (case index_of (times_of h) (date_str @ ''T'' @ hour_str) of
                     None \<Rightarrow> Inr 1
                   | Some idx \<Rightarrow>
                       factor_at (case h of None \<Rightarrow> no_hourly | Some d \<Rightarrow> d) idx)))))"




subsection \<open>Closed forms used in the statements\<close>

text \<open>The row and the matrix that the fill loop leaves behind when no cell raises.\<close>

definition row_of :: "(nat \<Rightarrow> nat \<Rightarrow> real) \<Rightarrow> nat \<Rightarrow> nat \<Rightarrow> real list" where
  "row_of g n i = map (\<lambda>j. if i = j then 0 else g i j) [0..<n]"

definition filled :: "(nat \<Rightarrow> nat \<Rightarrow> real) \<Rightarrow> nat \<Rightarrow> matrix" where
  "filled g n = map (row_of g n) [0..<n]"





text \<open>
  Concrete collaborators: the date parser on the two time stamps above (08:00 and 08:15 at
  UTC-5 fall in the hour 13:00 UTC), a network that does not answer, a server that answers
  503, a reply that is not JSON, a forecast without the hour 13:00 and a forecast of a storm
  at 13:00.
\<close>

definition script_stamp :: "string \<Rightarrow> (string \<times> string) option" where
  "script_stamp w =
     (if w = ''2025-11-10T08:00:00-05:00'' \<or> w = ''2025-11-10T08:15:00-05:00''
      then Some (''2025-11-10'', ''13:00'') else None)"





definition storm :: "real \<Rightarrow> real \<Rightarrow> string \<Rightarrow> reply" where
  "storm la lo d = Reply 200 (Json (Some
     \<lparr>time = Some [''2025-11-10T12:00'', ''2025-11-10T13:00''],
      precipitation = Some [Some 0, Some 10],
      snowfall = Some [Some 0, Some 2],
      wind_speed_10m = Some [Some 12, Some 40],
      wind_gusts_10m = Some [Some 20, Some 60]\<rparr>))"

section \<open>Properties of the fill loop\<close>

lemma fill_row_ok:
  assumes "\<forall>j \<in> set js. j \<noteq> i \<longrightarrow> cell i j = Inr (g i j)" and "i < length m"
  shows "fill_row cell i js m =
           Inr (m[i := foldl (\<lambda>r j. if i = j then r else r[j := g i j]) (m ! i) js])"
  using assms
proof (induction js arbitrary: m)
  case Nil
  then show ?case by simp
next
  case (Cons j js)
  show ?case
  proof (cases "i = j")
    case True
    with Cons show ?thesis by simp
  next
    case False
    have c: "cell i j = Inr (g i j)" using Cons.prems False by simp
    let ?m = "m[i := (m ! i)[j := g i j]]"
    have "fill_row cell i js ?m =
            Inr (?m[i := foldl (\<lambda>r j. if i = j then r else r[j := g i j]) (?m ! i) js])"
      using Cons.prems by (intro Cons.IH) simp_all
    with False c Cons.prems(2) show ?thesis by simp
  qed
qed

lemma foldl_row_length:
  "length (foldl (\<lambda>r j. if i = j then r else r[j := g i j]) r js) = length r"
  by (induction js arbitrary: r) simp_all

lemma foldl_row_nth:
  "k < length r \<Longrightarrow>
   foldl (\<lambda>r j. if i = j then r else r[j := g i j]) r js ! k =
     (if k \<in> set js \<and> k \<noteq> i then g i k else r ! k)"
proof (induction js arbitrary: r)
  case Nil
  then show ?case by simp
next
  case (Cons j js)
  then show ?case by (auto simp: nth_list_update)
qed

lemma foldl_row_zeros:
  "foldl (\<lambda>r j. if i = j then r else r[j := g i j]) (replicate n 0) [0..<n] = row_of g n i"
  by (rule nth_equalityI) (auto simp: foldl_row_length foldl_row_nth row_of_def)

lemma fill_rows_ok:
  assumes "\<forall>i \<in> set is. \<forall>j < n. j \<noteq> i \<longrightarrow> cell i j = Inr (g i j)"
    and "\<forall>i \<in> set is. i < length m" and "distinct is"
    and "\<forall>i \<in> set is. m ! i = replicate n 0"
  shows "\<exists>m'. fill_rows cell n is m = Inr m' \<and> length m' = length m \<and>
           (\<forall>k < length m. m' ! k = (if k \<in> set is then row_of g n k else m ! k))"
  using assms
proof (induction "is" arbitrary: m)
  case Nil
  then show ?case by simp
next
  case (Cons i "is")
  let ?m = "m[i := row_of g n i]"
  have il: "i < length m" using Cons.prems(2) by simp
  have "fill_row cell i [0..<n] m =
          Inr (m[i := foldl (\<lambda>r j. if i = j then r else r[j := g i j]) (m ! i) [0..<n]])"
    using Cons.prems(1) il by (intro fill_row_ok) simp_all
  moreover have "m ! i = replicate n 0" using Cons.prems(4) by simp
  ultimately have step: "fill_row cell i [0..<n] m = Inr ?m"
    by (simp add: foldl_row_zeros)
  have "\<exists>m'. fill_rows cell n is ?m = Inr m' \<and> length m' = length ?m \<and>
           (\<forall>k < length ?m. m' ! k = (if k \<in> set is then row_of g n k else ?m ! k))"
    using Cons.prems by (intro Cons.IH) (auto simp: nth_list_update)
  then obtain m' where m': "fill_rows cell n is ?m = Inr m'" "length m' = length m"
    "\<forall>k < length m. m' ! k = (if k \<in> set is then row_of g n k else ?m ! k)"
    by auto
  have "\<forall>k < length m. m' ! k = (if k \<in> set (i # is) then row_of g n k else m ! k)"
    using m'(3) il by (auto simp: nth_list_update)
  with step m'(1,2) show ?case by simp
qed

lemma fill_rows_filled:
  assumes "\<forall>i < n. \<forall>j < n. j \<noteq> i \<longrightarrow> cell i j = Inr (g i j)"
  shows "fill_rows cell n [0..<n] (zeros n) = Inr (filled g n)"
proof -
  have "\<exists>m'. fill_rows cell n [0..<n] (zeros n) = Inr m' \<and> length m' = length (zeros n) \<and>
           (\<forall>k < length (zeros n). m' ! k = (if k \<in> set [0..<n] then row_of g n k else zeros n ! k))"
    using assms by (intro fill_rows_ok) (simp_all add: zeros_def)
  then obtain m' where m': "fill_rows cell n [0..<n] (zeros n) = Inr m'" "length m' = n"
    "\<forall>k < n. m' ! k = row_of g n k"
    by (auto simp: zeros_def)
  have "m' = filled g n"
    using m'(2,3) by (intro nth_equalityI) (simp_all add: filled_def)
  with m'(1) show ?thesis by simp
qed

lemma filled_length: "length (filled g n) = n"
  by (simp add: filled_def)


lemma filled_nth: "i < n \<Longrightarrow> j < n \<Longrightarrow> filled g n ! i ! j = (if i = j then 0 else g i j)"
  by (simp add: filled_def row_of_def)

section \<open>Great-circle distance\<close>





















section \<open>Weather-adjusted matrix\<close>

lemma adjust_cell_ok:
  assumes "square base" "length fs = length base" "i < length base" "j < length base"
  shows "adjust_cell base fs i j = Inr (base ! i ! j * max (fs ! i) (fs ! j))"
proof -
  have "length (base ! i) = length base" using assms(1,3) by (simp add: square_def)
  then show ?thesis using assms by (simp add: adjust_cell_def py_get_def)
qed

lemma apply_weather_filled:
  assumes "square base" "length fs = length base"
  shows "apply_weather_to_matrix base fs =
           Inr (filled (\<lambda>i j. base ! i ! j * max (fs ! i) (fs ! j)) (length base))"
  unfolding apply_weather_to_matrix_def Let_def
  by (rule fill_rows_filled) (simp add: adjust_cell_ok[OF assms])

lemma non_negative_nth:
  "non_negative m \<Longrightarrow> i < length m \<Longrightarrow> j < length (m ! i) \<Longrightarrow> 0 \<le> m ! i ! j"
  unfolding non_negative_def by (meson nth_mem)

lemma non_negative_filled:
  assumes "\<forall>i < n. \<forall>j < n. i \<noteq> j \<longrightarrow> 0 \<le> g i j"
  shows "non_negative (filled g n)"
  using assms by (auto simp: non_negative_def filled_def row_of_def)

lemma zero_diagonal_filled: "zero_diagonal (filled g n)"
  by (simp add: zero_diagonal_def filled_length filled_nth)

text \<open>
  Claim C1. For a square base matrix and a factor list of the same length,
  \<^verbatim>\<open>apply_weather_to_matrix\<close> returns a matrix of the same shape whose entry \<open>(i, j)\<close> is
  \<open>base(i, j) * max (factor i) (factor j)\<close> off the diagonal and \<open>0\<close> on it; when the base
  entries are non-negative and the factors are at least one, the result has a zero diagonal
  and no negative entry.
\<close>

theorem apply_weather_entries:
  assumes "square base" and "length fs = length base"
  shows "\<exists>m. apply_weather_to_matrix base fs = Inr m \<and>
           length m = length base \<and> square m \<and>
           (\<forall>i < length base. \<forall>j < length base.
              m ! i ! j = (if i = j then 0 else base ! i ! j * max (fs ! i) (fs ! j))) \<and>
           (non_negative base \<and> (\<forall>f \<in> set fs. 1 \<le> f) \<longrightarrow> zero_diagonal m \<and> non_negative m)"
proof -
  let ?g = "\<lambda>i j. base ! i ! j * max (fs ! i) (fs ! j)"
  let ?m = "filled ?g (length base)"
  have 1: "apply_weather_to_matrix base fs = Inr ?m" using assms by (rule apply_weather_filled)
  have 2: "square ?m" by (auto simp: square_def filled_def row_of_def)
  have 3: "non_negative ?m" if nn: "non_negative base" and f: "\<forall>f \<in> set fs. 1 \<le> f"
  proof (rule non_negative_filled, intro allI impI)
    fix i j assume i: "i < length base" and j: "j < length base" and "i \<noteq> j"
    have "length (base ! i) = length base" using assms(1) i by (simp add: square_def)
    then have b: "0 \<le> base ! i ! j" using nn i j by (simp add: non_negative_nth)
    have "1 \<le> fs ! i" using f i assms(2) by simp
    then have "0 \<le> max (fs ! i) (fs ! j)" by simp
    with b show "0 \<le> base ! i ! j * max (fs ! i) (fs ! j)" by simp
  qed
  show ?thesis
    using 1 2 3 by (auto simp: filled_length filled_nth zero_diagonal_filled)
qed

theorem apply_weather_entries_witness:
  "square [[0, 10], [12, 0]] \<and> length [1.5, 1.2 :: real] = length [[0, 10], [12, 0 :: real]] \<and>
   apply_weather_to_matrix [[0, 10], [12, 0]] [1.5, 1.2] = Inr [[0, 15], [18, 0]]"
proof -
  have a: "square [[0, 10], [12, 0]]" by (simp add: square_def)
  have b: "length [1.5, 1.2 :: real] = length [[0, 10], [12, 0 :: real]]" by simp
  obtain m where m: "apply_weather_to_matrix [[0, 10], [12, 0]] [1.5, 1.2] = Inr m"
    "length m = 2" "square m"
    "\<forall>i < 2. \<forall>j < 2. m ! i ! j =
        (if i = j then 0 else [[0, 10], [12, 0]] ! i ! j * max ([1.5, 1.2] ! i) ([1.5, 1.2 :: real] ! j))"
    using apply_weather_entries [OF a b] by auto
  have r: "length (m ! 0) = 2" "length (m ! 1) = 2" using m(2,3) by (simp_all add: square_def)
  have "m ! 0 ! 0 = 0" "m ! 0 ! 1 = 15" "m ! 1 ! 0 = 18" "m ! 1 ! 1 = 0"
    using m(4) by simp_all
  then have "m ! 0 = [0, 15]" "m ! 1 = [18, 0]"
    using r by (auto simp: length_Suc_conv numeral_2_eq_2)
  then have "m = [[0, 15], [18, 0]]"
    using m(2) by (auto simp: length_Suc_conv numeral_2_eq_2)
  with a b m(1) show ?thesis by simp
qed



section \<open>Base travel-time matrix\<close>










lemma filled_one: "filled g (Suc 0) = [[0]]"
  by (simp add: filled_def row_of_def)





section \<open>The weather rule in double precision\<close>

lemma blen_1: "blen (Suc 0) = Suc 0"
  by simp

lemma ilog2_unit: "1 \<le> x \<Longrightarrow> x < 2 \<Longrightarrow> ilog2 x = 0"
proof -
  assume a: "1 \<le> x" "x < 2"
  then have "\<lfloor>x\<rfloor> = 1" by linarith
  then show ?thesis using a by (simp add: ilog2_def)
qed

lemma round_unit:
  "1 \<le> x \<Longrightarrow> x < 2 \<Longrightarrow> binary64_round x = of_int (rne (x * 4503599627370496)) / 4503599627370496"
  by (simp add: binary64_round_def ilog2_unit two_pow_def Let_def)

lemma fadd_unit:
  "1 \<le> x + y \<Longrightarrow> x + y < 2 \<Longrightarrow> fadd x y = of_int (rne ((x + y) * 4503599627370496)) / 4503599627370496"
  by (simp add: fadd_def round_unit)

lemma lit_values:
  "lit 0.5 = 1 / 2" "lit 5.0 = 5" "lit 1.0 = 1"
  "lit 0.1 = 3602879701896397 / 36028797018963968"
  "lit 0.10 = 3602879701896397 / 36028797018963968"
  "lit 0.20 = 3602879701896397 / 18014398509481984"
  "lit 0.30 = 5404319552844595 / 18014398509481984"
  "lit 0.05 = 3602879701896397 / 72057594037927936"
  unfolding lit_def by code_simp+


lemma lit_norm:
  "lit (1 / 10) = 3602879701896397 / 36028797018963968"
  "lit (1 / 5) = 3602879701896397 / 18014398509481984"
  "lit (3 / 10) = 5404319552844595 / 18014398509481984"
  "lit (1 / 20) = 3602879701896397 / 72057594037927936"
  unfolding lit_def by code_simp+

lemma weather_rule_tests:
  "weather_rule p s w g = rule_of_tests (1 / 2 \<le> p) (5 \<le> p)
      (3602879701896397 / 36028797018963968 \<le> s) (1 \<le> s) (30 \<le> w) (50 \<le> g)"
  by (simp only: weather_rule_def rule_of_tests_def lit_values)

lemma rule_of_tests_bounds:
  "1 \<le> rule_of_tests a b c d e f \<and> rule_of_tests a b c d e f \<le> max_factor"
  by (cases a; cases b; cases c; cases d; cases e; cases f;
      simp add: rule_of_tests_def lit_norm fadd_unit rne_def max_factor_def)

lemma rule_of_tests_close:
  "\<bar>rule_of_tests a b c d e f - exact_of_tests a b c d e f\<bar> \<le> 1 / 2 ^ 51"
  by (cases a; cases b; cases c; cases d; cases e; cases f;
      simp add: rule_of_tests_def exact_of_tests_def lit_norm fadd_unit rne_def)

lemma blen_9: "blen 9 = 4"
  by simp

lemma round_below_tenth:
  assumes lo: "1 / 10 \<le> s" and hi: "s < 3602879701896397 / 36028797018963968"
  shows "binary64_round s = 3602879701896397 / 36028797018963968"
proof -
  have pos: "0 < s" using lo by linarith
  have "9 < 1 / s" using pos hi by (simp add: field_simps)
  moreover have "1 / s \<le> 10" using pos lo by (simp add: field_simps)
  ultimately have c: "\<lceil>1 / s\<rceil> = 10" by (simp add: ceiling_eq_iff)
  have "\<not> 1 \<le> s" using hi by linarith
  then have e: "ilog2 s = - 4" by (simp add: ilog2_def c blen_9)
  have q: "two_pow (- 56) = 1 / 72057594037927936" by (simp add: two_pow_def)
  have f1: "7205759403792793 \<le> s * 72057594037927936" using lo by linarith
  have f2: "s * 72057594037927936 < 7205759403792794" using hi by linarith
  have fl: "\<lfloor>s * 72057594037927936\<rfloor> = 7205759403792793" using f1 f2 by linarith
  have d: "1 / 2 < s * 72057594037927936 - 7205759403792793" using lo by linarith
  have r: "rne (s * 72057594037927936) = 7205759403792794"
    using d by (simp add: rne_def fl Let_def)
  have "binary64_round s = of_int (rne (s * 72057594037927936)) * (1 / 72057594037927936)"
    using pos by (simp add: binary64_round_def e q Let_def)
  then show ?thesis by (simp add: r)
qed

lemma snow_threshold:
  assumes "json_number s"
  shows "(3602879701896397 / 36028797018963968 \<le> s) = (1 / 10 \<le> s)"
proof
  assume "3602879701896397 / 36028797018963968 \<le> s"
  then show "1 / 10 \<le> s" by linarith
next
  assume lo: "1 / 10 \<le> s"
  show "3602879701896397 / 36028797018963968 \<le> s"
  proof (rule ccontr)
    assume "\<not> 3602879701896397 / 36028797018963968 \<le> s"
    then have hi: "s < 3602879701896397 / 36028797018963968" by simp
    from assms consider "is_binary64 s" | "s \<in> \<int>" by (auto simp: json_number_def)
    then show False
    proof cases
      case 1
      then have "s = 3602879701896397 / 36028797018963968"
        using round_below_tenth[OF lo hi] by (simp add: is_binary64_def)
      with hi show False by simp
    next
      case 2
      then obtain k :: int where k: "s = of_int k" by (auto elim: Ints_cases)
      have "0 < k" using lo k by linarith
      then have "1 \<le> k" by simp
      then have "1 \<le> s" using k by simp
      with hi show False by linarith
    qed
  qed
qed

lemma rule_of_tests_fold:
  "rule_of_tests a b c d e f =
     foldl (\<lambda>acc d. fadd acc (lit d)) 1
       (applicable [(a, 0.10), (b, 0.10), (c, 0.20), (d, 0.30), (e, 0.05), (f, 0.10)])"
  by (simp add: rule_of_tests_def applicable_def)

lemma exact_of_tests_sum:
  "exact_of_tests a b c d e f =
     1 + sum_list (applicable [(a, 0.10), (b, 0.10), (c, 0.20), (d, 0.30), (e, 0.05), (f, 0.10)])"
  by (simp add: exact_of_tests_def applicable_def)

text \<open>
  Claim C5. For an observation whose snowfall is a number the JSON decoder can produce, the
  factor is \<open>1.0\<close> with the penalties of the thresholds that are met added one after the
  other, each threshold contributing by itself: \<open>+0.10\<close> for precipitation from \<open>0.5\<close>,
  another \<open>+0.10\<close> from \<open>5.0\<close>, \<open>+0.20\<close> for snowfall from \<open>0.1\<close>, another \<open>+0.30\<close> from
  \<open>1.0\<close>, \<open>+0.05\<close> for wind from \<open>30\<close> and \<open>+0.10\<close> for gusts from \<open>50\<close>. The additions are
  float additions, and their result is within \<open>2 ^ - 51\<close> of the sum of the decimals.
\<close>

theorem weather_rule_stacks:
  assumes "json_number snow"
  shows "weather_rule precip snow wind gust =
           foldl (\<lambda>acc d. fadd acc (lit d)) 1 (applicable (penalties precip snow wind gust)) \<and>
         \<bar>weather_rule precip snow wind gust -
            (1 + sum_list (applicable (penalties precip snow wind gust)))\<bar> \<le> 1 / 2 ^ 51"
proof -
  have p: "penalties precip snow wind gust =
      [(1 / 2 \<le> precip, 0.10), (5 \<le> precip, 0.10),
       (3602879701896397 / 36028797018963968 \<le> snow, 0.20), (1 \<le> snow, 0.30),
       (30 \<le> wind, 0.05), (50 \<le> gust, 0.10)]"
    using snow_threshold[OF assms] by (simp add: penalties_def)
  show ?thesis
    unfolding p weather_rule_tests rule_of_tests_fold[symmetric] exact_of_tests_sum[symmetric]
    using rule_of_tests_close by simp
qed

theorem weather_rule_stacks_witness:
  "json_number 2 \<and> \<bar>weather_rule 10 2 0 60 - 1.8\<bar> \<le> 1 / 2 ^ 51"
proof -
  have j: "json_number 2" by (simp add: json_number_def)
  have s: "1 + sum_list (applicable (penalties 10 2 0 60)) = 1.8"
    by (simp add: penalties_def applicable_def)
  have "\<bar>weather_rule 10 2 0 60 - (1 + sum_list (applicable (penalties 10 2 0 60)))\<bar> \<le> 1 / 2 ^ 51"
    using weather_rule_stacks [OF j, of 10 0 60] by (rule conjunct2)
  then have "\<bar>weather_rule 10 2 0 60 - 1.8\<bar> \<le> 1 / 2 ^ 51"
    unfolding s .
  with j show ?thesis by (rule conjI)
qed

lemma weather_rule_bounds: "1 \<le> weather_rule p s w g \<and> weather_rule p s w g \<le> max_factor"
  unfolding weather_rule_tests by (rule rule_of_tests_bounds)

lemma weather_rule_extreme: "weather_rule 10 2 40 60 = max_factor"
  by (simp add: weather_rule_tests rule_of_tests_def lit_norm fadd_unit rne_def max_factor_def)

section \<open>Weather lookup\<close>


lemma index_of_Some: "index_of xs x = Some i \<Longrightarrow> i < length xs \<and> xs ! i = x"
  by (induction xs arbitrary: i) (auto split: if_splits)

lemma factor_at_bounds:
  "factor_at data idx = Inr f \<Longrightarrow> 1 \<le> f \<and> f \<le> max_factor"
  using weather_rule_bounds by (auto simp: factor_at_def split: sum.splits)

lemma get_weather_factor_bounds:
  assumes "get_weather_factor stamp fetch la lo w = Inr f"
  shows "1 \<le> f \<and> f \<le> max_factor"
proof -
  have "f = 1 \<or> (\<exists>data idx. factor_at data idx = Inr f)"
    using assms
    by (auto simp: get_weather_factor_def
             split: option.splits prod.splits reply.splits body.splits if_splits)
  then show ?thesis
    using factor_at_bounds by (auto simp: max_factor_def)
qed

lemma storm_factor:
  "get_weather_factor script_stamp storm 41.1176 (- 85.0689) (Some ''2025-11-10T08:00:00-05:00'')
     = Inr max_factor"
  by (simp add: get_weather_factor_def script_stamp_def storm_def times_of_def factor_at_def
        series_at_def py_get_def weather_rule_extreme)

text \<open>
  Claim C10 says that the factor never exceeds \<open>1.85\<close>. With all six thresholds met the
  float additions give \<^verbatim>\<open>1.8500000000000003\<close>, which is above \<open>1.85\<close>.
\<close>

theorem factor_exceeds_185_counterexample:
  "get_weather_factor script_stamp storm 41.1176 (- 85.0689) (Some ''2025-11-10T08:00:00-05:00'')
     = Inr (8331659310635419 / 4503599627370496) \<and>
   (1.85 :: real) < 8331659310635419 / 4503599627370496"
  using storm_factor by (simp add: max_factor_def)

text \<open>
  Claim C10, amended. When the requested hour is found in the response and a factor is
  returned, the factor lies between \<open>1.0\<close> and the float \<^verbatim>\<open>1.8500000000000003\<close>, which is
  the result of \<^verbatim>\<open>1.0 + 0.1 + 0.1 + 0.2 + 0.3 + 0.05 + 0.1\<close> and exceeds \<open>1.85\<close> by less than
  \<open>2 ^ - 51\<close>, however extreme the reported values are.
\<close>

theorem factor_bounds:
  assumes "stamp w = Some (d, h)"
    and "fetch la lo d = Reply status (Json (Some data))"
    and "index_of (times_of (Some data)) (d @ ''T'' @ h) = Some idx"
    and "get_weather_factor stamp fetch la lo (Some w) = Inr f"
  shows "1 \<le> f \<and> f \<le> max_factor \<and> max_factor - 1.85 \<le> 1 / 2 ^ 51"
  using get_weather_factor_bounds[OF assms(4)] by (simp add: max_factor_def)

theorem factor_bounds_witness:
  "script_stamp ''2025-11-10T08:00:00-05:00'' = Some (''2025-11-10'', ''13:00'') \<and>
   index_of [''2025-11-10T12:00'', ''2025-11-10T13:00''] (''2025-11-10'' @ ''T'' @ ''13:00'') = Some 1 \<and>
   get_weather_factor script_stamp storm 41.1176 (- 85.0689) (Some ''2025-11-10T08:00:00-05:00'')
     = Inr max_factor \<and>
   1 \<le> max_factor \<and> max_factor \<le> max_factor"
proof -
  let ?data = "\<lparr>time = Some [''2025-11-10T12:00'', ''2025-11-10T13:00''],
      precipitation = Some [Some 0, Some 10],
      snowfall = Some [Some 0, Some 2],
      wind_speed_10m = Some [Some 12, Some 40],
      wind_gusts_10m = Some [Some 20, Some 60]\<rparr>"
  have a: "script_stamp ''2025-11-10T08:00:00-05:00'' = Some (''2025-11-10'', ''13:00'')"
    by (simp add: script_stamp_def)
  have b: "storm 41.1176 (- 85.0689) ''2025-11-10'' = Reply 200 (Json (Some ?data))"
    by (simp add: storm_def)
  have c: "index_of (times_of (Some ?data)) (''2025-11-10'' @ ''T'' @ ''13:00'') = Some 1"
    by (simp add: times_of_def)
  have c': "index_of [''2025-11-10T12:00'', ''2025-11-10T13:00''] (''2025-11-10'' @ ''T'' @ ''13:00'') = Some 1"
    by simp
  note d = storm_factor
  have "1 \<le> max_factor \<and> max_factor \<le> max_factor"
    using factor_bounds [OF a b c d] by simp
  with a c' d show ?thesis by simp
qed










end
